theory Spec2Isabelle
  imports Main "HOL-Library.Word"
begin

unbundle bit_operations_syntax

section \<open>The rf2xx radio driver wrapper (platform/openlab/radio-rf2xx.c)\<close>

text \<open>
  The driver keeps five globals (\<open>tx_buf\<close>, \<open>tx_len\<close>, \<open>rf2xx_state\<close>, \<open>rf2xx_on\<close>,
  \<open>cca_pending\<close>) and talks to the transceiver through the periph layer
  (\<open>periph/rf2xx.h\<close>), to the rtimer and to the process scheduler. The model passes the
  globals explicitly, together with the ordered log of every call the driver makes to
  these collaborators. Logging calls (\<open>log_debug\<close>, ...) and the LED code, which is
  compiled only under \<open>RF2XX_LEDS_ON\<close>, have no effect on the driver and are left out.

  Modelled are the mode controller (\<open>idle\<close>, \<open>listen\<close>, \<open>restart\<close>), the frame drain
  \<open>read\<close>, the interrupt handler and the entries \<open>prepare\<close>, \<open>transmit\<close>, \<open>send\<close>, \<open>read\<close>,
  \<open>receiving_packet\<close>, \<open>pending_packet\<close>, \<open>on\<close> and \<open>off\<close> of \<open>rf2xx_driver\<close>.
\<close>

subsection \<open>Data model\<close>

type_synonym uint8_t = "8 word"
type_synonym ushort = "16 word"

text \<open>\<open>enum rf2xx_state\<close>, in the order of the source.\<close>

datatype rf2xx_state =
    RF_IDLE
  | RF_BUSY
  | RF_TX
  | RF_TX_DONE
  | RF_LISTEN
  | RF_RX
  | RF_RX_DONE
  | RF_RX_READ

text \<open>
  Modelled from the spec: the result codes of \<open>transmit\<close> and \<open>send\<close>. Their enum is
  declared in \<open>dev/radio.h\<close>, outside the driver's file; the driver uses the three
  codes below, which the spec calls TxOk, TxError and TxCollision.
\<close>

datatype radio_tx = RADIO_TX_OK | RADIO_TX_ERR | RADIO_TX_COLLISION

text \<open>The registers the driver addresses, by name.\<close>

datatype rf2xx_reg =
    RF2XX_REG_TRX_STATUS
  | RF2XX_REG_TRX_CTRL_0
  | RF2XX_REG_TRX_CTRL_1
  | RF2XX_REG_TRX_CTRL_2
  | RF2XX_REG_PHY_TX_PWR
  | RF2XX_REG_PHY_RSSI
  | RF2XX_REG_PHY_CC_CCA
  | RF2XX_REG_XOSC_CTRL
  | RF2XX_REG_IRQ_MASK
  | RF2XX_REG_IRQ_STATUS

text \<open>The arguments the driver gives to \<open>rf2xx_set_state\<close>.\<close>

datatype trx_state =
    RF2XX_TRX_STATE_FORCE_PLL_ON
  | RF2XX_TRX_STATE_RX_ON
  | RF2XX_TRX_STATE_PLL_ON

text \<open>
  One constructor for each call the modelled functions make to a collaborator: the
  periph layer (all but the last) and the process scheduler
  (\<open>process_poll(&rf2xx_process)\<close>). The query \<open>rf2xx_has_pa\<close> is not logged.
\<close>

datatype ext_call =
    IRQ_DISABLE
  | IRQ_ENABLE
  | FIFO_ACCESS_CANCEL
  | SLP_TR_CLEAR
  | SLP_TR_SET
  | SET_STATE trx_state
  | PA_ENABLE
  | PA_DISABLE
  | REG_READ rf2xx_reg
  | REG_WRITE rf2xx_reg uint8_t
  | GET_STATUS
  | FIFO_WRITE_FIRST uint8_t
  | FIFO_WRITE_REMAINING_ASYNC "uint8_t list"
  | FIFO_READ_FIRST
  | FIFO_READ_REMAINING uint8_t
  | PROCESS_POLL

text \<open>
  The periph layer, the rtimer and the constants of \<open>periph/rf2xx.h\<close> are not part of the
  driver's file, so they are parameters of the model. Every value the driver reads from
  the outside is a function of the calls made so far: nothing is assumed about the chip
  beyond its being deterministic in that history.
  \<^item> \<open>has_pa\<close> is \<open>rf2xx_has_pa(RF2XX_DEVICE)\<close>;
  \<^item> the five masks and codes are the header's constants of the same names;
  \<^item> \<open>reg_value h r\<close> is what \<open>rf2xx_reg_read\<close> of register \<open>r\<close> returns after history \<open>h\<close>,
    \<open>status_value\<close> what \<open>rf2xx_get_status\<close> returns, \<open>fifo_first_value\<close> what
    \<open>rf2xx_fifo_read_first\<close> returns, and \<open>fifo_byte h i\<close> the \<open>i\<close>-th byte that
    \<open>rf2xx_fifo_read_remaining\<close> delivers;
  \<^item> \<open>deadline_passed h\<close> is the value of \<open>RTIMER_CLOCK_LT(time, RTIMER_NOW())\<close> in the
    PLL wait of \<open>rf2xx_wr_transmit\<close>, where \<open>time\<close> is \<open>RTIMER_NOW() + RTIMER_SECOND / 1000\<close>
    taken before the loop.
\<close>

record periph =
  has_pa :: bool
  IRQ_STATUS_MASK_RX_START :: uint8_t
  IRQ_STATUS_MASK_TRX_END :: uint8_t
  PHY_RSSI_MASK_RX_CRC_VALID :: uint8_t
  TRX_CTRL_1_MASK_PA_EXT_EN :: uint8_t
  TRX_STATUS_PLL_ON :: uint8_t
  reg_value :: "ext_call list \<Rightarrow> rf2xx_reg \<Rightarrow> uint8_t"
  status_value :: "ext_call list \<Rightarrow> uint8_t"
  fifo_first_value :: "ext_call list \<Rightarrow> uint8_t"
  fifo_byte :: "ext_call list \<Rightarrow> nat \<Rightarrow> uint8_t"
  deadline_passed :: "ext_call list \<Rightarrow> bool"

text \<open>
  The driver's globals and the log of its outgoing calls. \<open>rf2xx_on\<close> and \<open>cca_pending\<close>
  are C \<open>int\<close>s that only ever hold 0 or 1.
\<close>

record driver =
  tx_buf :: "uint8_t list"
  tx_len :: uint8_t
  rf2xx_state :: rf2xx_state
  rf2xx_on :: int
  cca_pending :: int
  calls :: "ext_call list"

definition RF2XX_MAX_PAYLOAD :: nat where
  "RF2XX_MAX_PAYLOAD = 125"

subsection \<open>The calls to the periph layer\<close>

definition call :: "ext_call \<Rightarrow> driver \<Rightarrow> driver" where
  "call c s = s\<lparr>calls := calls s @ [c]\<rparr>"

definition rf2xx_reg_read :: "periph \<Rightarrow> rf2xx_reg \<Rightarrow> driver \<Rightarrow> uint8_t \<times> driver" where
  "rf2xx_reg_read p r s = (reg_value p (calls s) r, call (REG_READ r) s)"

definition rf2xx_get_status :: "periph \<Rightarrow> driver \<Rightarrow> uint8_t \<times> driver" where
  "rf2xx_get_status p s = (status_value p (calls s), call GET_STATUS s)"

definition rf2xx_fifo_read_first :: "periph \<Rightarrow> driver \<Rightarrow> uint8_t \<times> driver" where
  "rf2xx_fifo_read_first p s = (fifo_first_value p (calls s), call FIFO_READ_FIRST s)"

text \<open>
  \<open>rf2xx_fifo_read_remaining(dev, buf, len)\<close> stores the next \<open>len\<close> bytes of the FIFO at
  the start of \<open>buf\<close>; the rest of the buffer keeps its content.
\<close>

definition rf2xx_fifo_read_remaining ::
    "periph \<Rightarrow> uint8_t list \<Rightarrow> uint8_t \<Rightarrow> driver \<Rightarrow> uint8_t list \<times> driver" where
  "rf2xx_fifo_read_remaining p buf len s =
     (map (fifo_byte p (calls s)) [0..<unat len] @ drop (unat len) buf,
      call (FIFO_READ_REMAINING len) s)"

text \<open>
  \<open>memcpy(dst, src, n)\<close>: the first \<open>n\<close> bytes of \<open>dst\<close> become those of \<open>src\<close>. C requires
  both objects to hold at least \<open>n\<close> bytes.
\<close>

definition memcpy :: "uint8_t list \<Rightarrow> uint8_t list \<Rightarrow> nat \<Rightarrow> uint8_t list" where
  "memcpy dst src n = take n src @ drop n dst"

subsection \<open>Mode controller: idle, listen, restart\<close>

definition idle :: "periph \<Rightarrow> driver \<Rightarrow> driver" where
  "idle p s =
     (let s = call IRQ_DISABLE s;
          s = call FIFO_ACCESS_CANCEL s;
          s = call SLP_TR_CLEAR s;
          s = call (SET_STATE RF2XX_TRX_STATE_FORCE_PLL_ON) s
      in if has_pa p then
           (let s = call PA_DISABLE s;
                (reg, s) = rf2xx_reg_read p RF2XX_REG_TRX_CTRL_1 s;
                reg = reg AND NOT (TRX_CTRL_1_MASK_PA_EXT_EN p)
            in call (REG_WRITE RF2XX_REG_TRX_CTRL_1 reg) s)
         else s)"

text \<open>
  The part shared by \<open>listen\<close> and \<open>rf2xx_wr_transmit\<close>: switch the external power
  amplifier on when the board has one.
\<close>

definition pa_on :: "periph \<Rightarrow> driver \<Rightarrow> driver" where
  "pa_on p s =
     (if has_pa p then
        (let s = call PA_ENABLE s;
             (reg, s) = rf2xx_reg_read p RF2XX_REG_TRX_CTRL_1 s;
             reg = reg OR TRX_CTRL_1_MASK_PA_EXT_EN p
         in call (REG_WRITE RF2XX_REG_TRX_CTRL_1 reg) s)
      else s)"

definition listen :: "periph \<Rightarrow> driver \<Rightarrow> driver" where
  "listen p s =
     (let (_, s) = rf2xx_reg_read p RF2XX_REG_IRQ_STATUS s;
          s = pa_on p s;
          s = call IRQ_ENABLE s;
          s = s\<lparr>rf2xx_state := RF_LISTEN\<rparr>
      in call (SET_STATE RF2XX_TRX_STATE_RX_ON) s)"

definition restart :: "periph \<Rightarrow> driver \<Rightarrow> driver" where
  "restart p s =
     (let s = idle p s
      in if rf2xx_on s \<noteq> 0 then listen p s else s\<lparr>rf2xx_state := RF_IDLE\<rparr>)"

subsection \<open>Receive path: the frame drain\<close>

text \<open>
  \<open>static int read(uint8_t *buf, uint8_t buf_len)\<close>. The result is the returned \<open>int\<close>,
  the caller's buffer afterwards and the driver. \<open>len\<close> is a \<open>uint8_t\<close>, so the
  subtraction of the two trailer bytes wraps around below 2.
\<close>

definition read :: "periph \<Rightarrow> uint8_t list \<Rightarrow> uint8_t \<Rightarrow> driver \<Rightarrow> int \<times> uint8_t list \<times> driver" where
  "read p buf buf_len s =
     (let (rssi, s) = rf2xx_reg_read p RF2XX_REG_PHY_RSSI s
      in if rssi AND PHY_RSSI_MASK_RX_CRC_VALID p = 0 then (0, buf, s)
         else
           (let (first, s) = rf2xx_fifo_read_first p s;
                len = first - 2
            in if len > buf_len then
                 (let (buf, s) = rf2xx_fifo_read_remaining p buf 0 s in (0, buf, s))
               else
                 (let (buf, s) = rf2xx_fifo_read_remaining p buf len s in (uint len, buf, s))))"

subsection \<open>The interrupt handler\<close>

text \<open>
  The handler keeps a local copy \<open>state\<close> of the global. Its two tests on the latch are
  the two stages below; each takes and returns the local copy with the driver.
\<close>

definition irq_rx_start :: "periph \<Rightarrow> uint8_t \<Rightarrow> rf2xx_state \<times> driver \<Rightarrow> rf2xx_state \<times> driver" where
  "irq_rx_start p reg = (\<lambda>(state, s).
     if reg AND IRQ_STATUS_MASK_RX_START p \<noteq> 0 \<and> state = RF_LISTEN
     then (RF_RX, s\<lparr>rf2xx_state := RF_RX\<rparr>)
     else (state, s))"

definition irq_trx_end :: "periph \<Rightarrow> uint8_t \<Rightarrow> rf2xx_state \<times> driver \<Rightarrow> rf2xx_state \<times> driver" where
  "irq_trx_end p reg = (\<lambda>(state, s).
     if reg AND IRQ_STATUS_MASK_TRX_END p \<noteq> 0 then
       (case state of
          RF_TX \<Rightarrow> (RF_TX_DONE, s\<lparr>rf2xx_state := RF_TX_DONE\<rparr>)
        | RF_RX \<Rightarrow>
            (RF_RX_DONE,
             call PROCESS_POLL
               (call (SET_STATE RF2XX_TRX_STATE_PLL_ON) (s\<lparr>rf2xx_state := RF_RX_DONE\<rparr>)))
        | RF_LISTEN \<Rightarrow>
            (RF_RX_DONE,
             call PROCESS_POLL
               (call (SET_STATE RF2XX_TRX_STATE_PLL_ON) (s\<lparr>rf2xx_state := RF_RX_DONE\<rparr>)))
        | _ \<Rightarrow> (state, s))
     else (state, s))"

definition irq_handler :: "periph \<Rightarrow> driver \<Rightarrow> driver" where
  "irq_handler p s =
     (let state = rf2xx_state s
      in if state = RF_TX \<or> state = RF_LISTEN \<or> state = RF_RX then
           (let (reg, s) = rf2xx_reg_read p RF2XX_REG_IRQ_STATUS s
            in snd (irq_trx_end p reg (irq_rx_start p reg (state, s))))
         else s)"

subsection \<open>Turning the radio on and off\<close>

text \<open>
  Both functions have a critical section that sets the local \<open>flag\<close> and a call made
  after it. The critical section is a definition of its own: its result is the state
  that every other context sees from \<open>platform_exit_critical()\<close> on. In \<open>rf2xx_wr_on\<close> the
  statement \<open>rf2xx_state == RF_BUSY;\<close> is a comparison whose value is dropped.
\<close>

definition rf2xx_wr_on_critical :: "driver \<Rightarrow> bool \<times> driver" where
  "rf2xx_wr_on_critical s =
     (if rf2xx_on s = 0 then
        (let s = s\<lparr>rf2xx_on := 1\<rparr>
         in if rf2xx_state s = RF_IDLE then
              (let (_ :: bool) = (rf2xx_state s = RF_BUSY) in (True, s))
            else (False, s))
      else (False, s))"

definition rf2xx_wr_on :: "periph \<Rightarrow> driver \<Rightarrow> int \<times> driver" where
  "rf2xx_wr_on p s =
     (let (flag, s) = rf2xx_wr_on_critical s;
          s = (if flag then listen p s else s)
      in (1, s))"

definition rf2xx_wr_off_critical :: "driver \<Rightarrow> bool \<times> driver" where
  "rf2xx_wr_off_critical s =
     (if rf2xx_on s \<noteq> 0 then
        (let s = s\<lparr>rf2xx_on := 0\<rparr>
         in if rf2xx_state s = RF_LISTEN then (True, s\<lparr>rf2xx_state := RF_BUSY\<rparr>)
            else (False, s))
      else (False, s))"

definition rf2xx_wr_off :: "periph \<Rightarrow> driver \<Rightarrow> int \<times> driver" where
  "rf2xx_wr_off p s =
     (let (flag, s) = rf2xx_wr_off_critical s;
          s = (if flag then (idle p s)\<lparr>rf2xx_state := RF_IDLE\<rparr> else s)
      in (1, s))"

subsection \<open>Transmit path\<close>

text \<open>
  \<open>rf2xx_wr_prepare(payload, payload_len)\<close>: \<open>payload\<close> is the caller's memory, which C
  requires to hold at least \<open>payload_len\<close> bytes. The result is 1 for the payload that
  is too big and 0 for success.
\<close>

definition rf2xx_wr_prepare :: "uint8_t list \<Rightarrow> ushort \<Rightarrow> driver \<Rightarrow> int \<times> driver" where
  "rf2xx_wr_prepare payload payload_len s =
     (if unat payload_len > RF2XX_MAX_PAYLOAD then (1, s\<lparr>tx_len := 0\<rparr>)
      else
        (let s = s\<lparr>tx_len := ucast payload_len\<rparr>;
             s = s\<lparr>tx_buf := memcpy (tx_buf s) payload (unat (tx_len s))\<rparr>
         in (0, s)))"

text \<open>
  The critical section of \<open>rf2xx_wr_transmit\<close>: the \<open>switch\<close> on the state. \<open>None\<close> is the
  \<open>default\<close> branch, which leaves the function; otherwise the result is the local \<open>flag\<close>
  and the driver.
\<close>

definition transmit_check_state :: "driver \<Rightarrow> (bool \<times> driver) option" where
  "transmit_check_state s =
     (case rf2xx_state s of
        RF_LISTEN \<Rightarrow> Some (True, s\<lparr>rf2xx_state := RF_TX\<rparr>)
      | RF_IDLE \<Rightarrow> Some (False, s\<lparr>rf2xx_state := RF_TX\<rparr>)
      | _ \<Rightarrow> None)"

text \<open>
  The \<open>do ... while (reg != RF2XX_TRX_STATUS__PLL_ON)\<close> loop. It ends with \<open>False\<close> when
  the deadline has passed (the function then restarts and returns) and with \<open>True\<close> when
  the chip reports PLL_ON. A chip that never reports PLL_ON under a clock that never
  passes the deadline keeps the loop running: the value is \<open>None\<close>.
\<close>

partial_function (option) wait_pll_on :: "periph \<Rightarrow> driver \<Rightarrow> (bool \<times> driver) option" where
  "wait_pll_on p s =
     (case rf2xx_get_status p s of
        (reg, s) \<Rightarrow>
          if deadline_passed p (calls s) then Some (False, s)
          else if reg \<noteq> TRX_STATUS_PLL_ON p then wait_pll_on p s
          else Some (True, s))"

declare wait_pll_on.simps [code]

text \<open>
  What can happen while \<open>rf2xx_wr_transmit\<close> spins in \<open>while (rf2xx_state == RF_TX)\<close>: the
  chip raises its interrupt, or an rtimer task preempts the caller and calls \<open>on()\<close> or
  \<open>off()\<close> (the comment in \<open>rf2xx_process\<close> names these callers).
\<close>

datatype event = IRQ | CALL_ON | CALL_OFF

fun deliver :: "periph \<Rightarrow> event \<Rightarrow> driver \<Rightarrow> driver" where
  "deliver p IRQ s = irq_handler p s"
| "deliver p CALL_ON s = snd (rf2xx_wr_on p s)"
| "deliver p CALL_OFF s = snd (rf2xx_wr_off p s)"

text \<open>
  The loop \<open>while (rf2xx_state == RF_TX) ;\<close> against the events that arrive, one between
  two tests of the state. The loop has no timeout: when the events are used up and the
  state is still \<open>RF_TX\<close>, nothing will change it any more and the loop never ends
  (\<open>None\<close>).
\<close>

fun wait_tx_end :: "periph \<Rightarrow> event list \<Rightarrow> driver \<Rightarrow> driver option" where
  "wait_tx_end p [] s = (if rf2xx_state s = RF_TX then None else Some s)"
| "wait_tx_end p (e # evs) s =
     (if rf2xx_state s = RF_TX then wait_tx_end p evs (deliver p e s) else Some s)"

text \<open>
  The steps of \<open>rf2xx_wr_transmit\<close> between the critical section and the PLL wait, and
  between the PLL wait and the wait for the end of the packet. The argument of
  \<open>rf2xx_fifo_write_first\<close> is logged as a byte.
\<close>

definition transmit_setup :: "periph \<Rightarrow> bool \<Rightarrow> driver \<Rightarrow> driver" where
  "transmit_setup p flag s =
     (let s = (if flag then idle p s else s);
          (_, s) = rf2xx_reg_read p RF2XX_REG_IRQ_STATUS s
      in pa_on p s)"

definition transmit_start :: "driver \<Rightarrow> driver" where
  "transmit_start s =
     (let s = call IRQ_ENABLE s;
          s = call (FIFO_WRITE_FIRST (tx_len s + 2)) s;
          s = call (FIFO_WRITE_REMAINING_ASYNC (take (unat (tx_len s)) (tx_buf s))) s
      in call SLP_TR_SET s)"

text \<open>
  \<open>rf2xx_wr_transmit(transmit_len)\<close>, with the events that arrive during its last wait.
  \<open>None\<close> means that the call does not return.
\<close>

definition rf2xx_wr_transmit ::
    "periph \<Rightarrow> event list \<Rightarrow> ushort \<Rightarrow> driver \<Rightarrow> (radio_tx \<times> driver) option" where
  "rf2xx_wr_transmit p evs transmit_len s =
     (if unat (tx_len s) \<noteq> unat transmit_len then Some (RADIO_TX_ERR, s)
      else
        (case transmit_check_state s of
           None \<Rightarrow> Some (RADIO_TX_COLLISION, s)
         | Some (flag, s) \<Rightarrow>
             (case wait_pll_on p (transmit_setup p flag s) of
                None \<Rightarrow> None
              | Some (False, s) \<Rightarrow> Some (RADIO_TX_ERR, restart p s)
              | Some (True, s) \<Rightarrow>
                  (case wait_tx_end p evs (transmit_start s) of
                     None \<Rightarrow> None
                   | Some s \<Rightarrow>
                       (let ret = (if rf2xx_state s = RF_TX_DONE then RADIO_TX_OK
                                   else RADIO_TX_ERR)
                        in Some (ret, restart p s))))))"

definition rf2xx_wr_send ::
    "periph \<Rightarrow> event list \<Rightarrow> uint8_t list \<Rightarrow> ushort \<Rightarrow> driver \<Rightarrow> (radio_tx \<times> driver) option" where
  "rf2xx_wr_send p evs payload payload_len s =
     (let (r, s) = rf2xx_wr_prepare payload payload_len s
      in if r \<noteq> 0 then Some (RADIO_TX_ERR, s)
         else rf2xx_wr_transmit p evs payload_len s)"

subsection \<open>Receive path: the public read\<close>

text \<open>
  \<open>rf2xx_wr_read(buf, buf_len)\<close> takes an \<open>unsigned short\<close> and hands it to \<open>read\<close>, whose
  parameter is a \<open>uint8_t\<close>: the conversion keeps the low eight bits.
\<close>

definition rf2xx_wr_read ::
    "periph \<Rightarrow> uint8_t list \<Rightarrow> ushort \<Rightarrow> driver \<Rightarrow> int \<times> uint8_t list \<times> driver" where
  "rf2xx_wr_read p buf buf_len s =
     (if rf2xx_state s \<noteq> RF_RX_DONE then (0, buf, s)
      else
        (let s = s\<lparr>rf2xx_state := RF_RX_READ\<rparr>;
             (len, buf, s) = read p buf (ucast buf_len) s;
             s = restart p s
         in (len, buf, s)))"

definition rf2xx_wr_receiving_packet :: "driver \<Rightarrow> int" where
  "rf2xx_wr_receiving_packet s = (if rf2xx_state s = RF_RX then 1 else 0)"

definition rf2xx_wr_pending_packet :: "driver \<Rightarrow> int" where
  "rf2xx_wr_pending_packet s = (if rf2xx_state s = RF_RX_DONE then 1 else 0)"

subsection \<open>A concrete board and concrete driver states\<close>

text \<open>
  A board with an external power amplifier and the constants of the AT86RF231 data
  sheet. The chip reports PLL_ON at once, latches transfer-end in its interrupt status,
  and holds a frame with a good CRC whose length byte is 5: three payload bytes
  \<open>0x61, 0x62, 0x63\<close> and the two trailer bytes. The deadline of the PLL wait has passed
  once 64 calls have been made.
\<close>

definition board :: periph where
  "board =
     \<lparr>has_pa = True,
      IRQ_STATUS_MASK_RX_START = 0x04,
      IRQ_STATUS_MASK_TRX_END = 0x08,
      PHY_RSSI_MASK_RX_CRC_VALID = 0x80,
      TRX_CTRL_1_MASK_PA_EXT_EN = 0x80,
      TRX_STATUS_PLL_ON = 0x09,
      reg_value = (\<lambda>h r. case r of
                      RF2XX_REG_IRQ_STATUS \<Rightarrow> 0x08
                    | RF2XX_REG_PHY_RSSI \<Rightarrow> 0x9C
                    | RF2XX_REG_TRX_CTRL_1 \<Rightarrow> 0x20
                    | _ \<Rightarrow> 0),
      status_value = (\<lambda>h. 0x09),
      fifo_first_value = (\<lambda>h. 5),
      fifo_byte = (\<lambda>h i. 0x61 + of_nat i),
      deadline_passed = (\<lambda>h. 64 \<le> length h)\<rparr>"

text \<open>The same board when the interrupt status shows receive-start only.\<close>

definition board_rx_start :: periph where
  "board_rx_start = board\<lparr>reg_value := (\<lambda>h r. 0x04)\<rparr>"


text \<open>
  The globals as \<open>rf2xx_wr_init\<close> assigns them (radio off, state idle, nothing prepared),
  with the log of calls started afresh; and the same with the radio on and listening.
\<close>

definition booted :: driver where
  "booted =
     \<lparr>tx_buf = replicate 125 0, tx_len = 0, rf2xx_state = RF_IDLE, rf2xx_on = 0,
      cca_pending = 0, calls = []\<rparr>"

definition listening :: driver where
  "listening = booted\<lparr>rf2xx_state := RF_LISTEN, rf2xx_on := 1\<rparr>"

text \<open>The driver after \<open>prepare\<close> of the three bytes \<open>0x61, 0x62, 0x63\<close>, radio off.\<close>

definition prepared :: driver where
  "prepared = booted\<lparr>tx_buf := [0x61, 0x62, 0x63] @ replicate 122 0, tx_len := 3\<rparr>"

section \<open>What the modelled functions leave unchanged\<close>

lemma call_fields [simp]:
  "tx_buf (call c s) = tx_buf s"
  "tx_len (call c s) = tx_len s"
  "rf2xx_state (call c s) = rf2xx_state s"
  "rf2xx_on (call c s) = rf2xx_on s"
  "cca_pending (call c s) = cca_pending s"
  "calls (call c s) = calls s @ [c]"
  by (simp_all add: call_def)

lemma call_state_update [simp]:
  "call c (s\<lparr>rf2xx_state := x\<rparr>) = (call c s)\<lparr>rf2xx_state := x\<rparr>"
  by (simp add: call_def)

lemma reg_read_fields [simp]:
  "fst (rf2xx_reg_read p r s) = reg_value p (calls s) r"
  "snd (rf2xx_reg_read p r s) = call (REG_READ r) s"
  by (simp_all add: rf2xx_reg_read_def)

lemma get_status_fields [simp]:
  "fst (rf2xx_get_status p s) = status_value p (calls s)"
  "snd (rf2xx_get_status p s) = call GET_STATUS s"
  by (simp_all add: rf2xx_get_status_def)

lemma idle_fields [simp]:
  "tx_buf (idle p s) = tx_buf s"
  "tx_len (idle p s) = tx_len s"
  "rf2xx_state (idle p s) = rf2xx_state s"
  "rf2xx_on (idle p s) = rf2xx_on s"
  "cca_pending (idle p s) = cca_pending s"
  by (simp_all add: idle_def Let_def split_beta)

lemma pa_on_fields [simp]:
  "tx_buf (pa_on p s) = tx_buf s"
  "tx_len (pa_on p s) = tx_len s"
  "rf2xx_state (pa_on p s) = rf2xx_state s"
  "rf2xx_on (pa_on p s) = rf2xx_on s"
  "cca_pending (pa_on p s) = cca_pending s"
  by (simp_all add: pa_on_def Let_def split_beta)

lemma listen_fields [simp]:
  "tx_buf (listen p s) = tx_buf s"
  "tx_len (listen p s) = tx_len s"
  "rf2xx_state (listen p s) = RF_LISTEN"
  "rf2xx_on (listen p s) = rf2xx_on s"
  "cca_pending (listen p s) = cca_pending s"
  by (simp_all add: listen_def Let_def split_beta)

text \<open>\<open>restart\<close> ends in the state that the on/off flag asks for, whatever it starts from.\<close>

lemma restart_fields [simp]:
  "tx_buf (restart p s) = tx_buf s"
  "tx_len (restart p s) = tx_len s"
  "rf2xx_state (restart p s) = (if rf2xx_on s \<noteq> 0 then RF_LISTEN else RF_IDLE)"
  "rf2xx_on (restart p s) = rf2xx_on s"
  "cca_pending (restart p s) = cca_pending s"
  by (simp_all add: restart_def Let_def)

lemma irq_handler_fields [simp]:
  "tx_buf (irq_handler p s) = tx_buf s"
  "tx_len (irq_handler p s) = tx_len s"
  "rf2xx_on (irq_handler p s) = rf2xx_on s"
  "cca_pending (irq_handler p s) = cca_pending s"
  by (simp_all add: irq_handler_def irq_rx_start_def irq_trx_end_def Let_def split_beta
      split: rf2xx_state.split)

lemma transmit_setup_fields [simp]:
  "tx_buf (transmit_setup p flag s) = tx_buf s"
  "tx_len (transmit_setup p flag s) = tx_len s"
  "rf2xx_state (transmit_setup p flag s) = rf2xx_state s"
  "rf2xx_on (transmit_setup p flag s) = rf2xx_on s"
  by (simp_all add: transmit_setup_def Let_def split_beta)

lemma transmit_start_fields [simp]:
  "tx_buf (transmit_start s) = tx_buf s"
  "tx_len (transmit_start s) = tx_len s"
  "rf2xx_state (transmit_start s) = rf2xx_state s"
  "rf2xx_on (transmit_start s) = rf2xx_on s"
  "calls (transmit_start s) =
     (calls s @ [IRQ_ENABLE, FIFO_WRITE_FIRST (tx_len s + 2),
                 FIFO_WRITE_REMAINING_ASYNC (take (unat (tx_len s)) (tx_buf s))]) @ [SLP_TR_SET]"
  by (simp_all add: transmit_start_def Let_def)

lemma unat_ucast_ushort: "unat (ucast (w :: ushort) :: uint8_t) = unat w mod 256"
  by (simp add: unsigned_ucast_eq take_bit_eq_mod)

section \<open>Transmit path: prepare\<close>

text \<open>
  Claim C4. \<open>prepare(payload, length)\<close> with \<open>length\<close> above the capacity of 125 bytes
  returns 1 (payload too large), copies nothing and sets the recorded length to 0: the
  driver afterwards is the driver before with \<open>tx_len = 0\<close>. With \<open>length\<close> within the
  capacity (and a payload object of at least \<open>length\<close> bytes, as \<open>memcpy\<close> requires) it
  returns 0, records \<open>length\<close>, makes the first \<open>length\<close> bytes of \<open>tx_buf\<close> those of the
  payload and leaves the rest of the 125-byte buffer and everything else as they were.
  In every case \<open>rf2xx_state\<close> is unchanged.
\<close>

theorem rf2xx_wr_prepare_spec:
  "(RF2XX_MAX_PAYLOAD < unat payload_len \<longrightarrow>
      rf2xx_wr_prepare payload payload_len s = (1, s\<lparr>tx_len := 0\<rparr>)) \<and>
   (unat payload_len \<le> RF2XX_MAX_PAYLOAD \<and> unat payload_len \<le> length payload \<and>
    length (tx_buf s) = RF2XX_MAX_PAYLOAD \<longrightarrow>
      (\<exists>s'. rf2xx_wr_prepare payload payload_len s = (0, s') \<and>
            unat (tx_len s') = unat payload_len \<and>
            take (unat payload_len) (tx_buf s') = take (unat payload_len) payload \<and>
            drop (unat payload_len) (tx_buf s') = drop (unat payload_len) (tx_buf s) \<and>
            length (tx_buf s') = RF2XX_MAX_PAYLOAD \<and>
            s'\<lparr>tx_buf := tx_buf s, tx_len := tx_len s\<rparr> = s)) \<and>
   rf2xx_state (snd (rf2xx_wr_prepare payload payload_len s)) = rf2xx_state s"
proof (intro conjI impI)
  assume "RF2XX_MAX_PAYLOAD < unat payload_len"
  then show "rf2xx_wr_prepare payload payload_len s = (1, s\<lparr>tx_len := 0\<rparr>)"
    by (simp add: rf2xx_wr_prepare_def)
next
  assume h: "unat payload_len \<le> RF2XX_MAX_PAYLOAD \<and> unat payload_len \<le> length payload \<and>
    length (tx_buf s) = RF2XX_MAX_PAYLOAD"
  define n where "n = unat payload_len"
  have n: "n \<le> 125" "n \<le> length payload" "length (tx_buf s) = 125"
    using h by (simp_all add: n_def RF2XX_MAX_PAYLOAD_def)
  have u: "unat (ucast payload_len :: uint8_t) = n"
    using n(1) by (simp add: n_def unat_ucast_ushort)
  let ?s' = "s\<lparr>tx_len := ucast payload_len, tx_buf := memcpy (tx_buf s) payload n\<rparr>"
  have r: "rf2xx_wr_prepare payload payload_len s = (0, ?s')"
    using h u by (simp add: rf2xx_wr_prepare_def Let_def n_def)
  have "take n (memcpy (tx_buf s) payload n) = take n payload"
    using n by (simp add: memcpy_def)
  moreover have "drop n (memcpy (tx_buf s) payload n) = drop n (tx_buf s)"
    using n by (simp add: memcpy_def)
  moreover have "length (memcpy (tx_buf s) payload n) = 125"
    using n by (simp add: memcpy_def)
  ultimately show "\<exists>s'. rf2xx_wr_prepare payload payload_len s = (0, s') \<and>
            unat (tx_len s') = unat payload_len \<and>
            take (unat payload_len) (tx_buf s') = take (unat payload_len) payload \<and>
            drop (unat payload_len) (tx_buf s') = drop (unat payload_len) (tx_buf s) \<and>
            length (tx_buf s') = RF2XX_MAX_PAYLOAD \<and>
            s'\<lparr>tx_buf := tx_buf s, tx_len := tx_len s\<rparr> = s"
    using r u by (simp add: n_def [symmetric] RF2XX_MAX_PAYLOAD_def)
next
  show "rf2xx_state (snd (rf2xx_wr_prepare payload payload_len s)) = rf2xx_state s"
    by (simp add: rf2xx_wr_prepare_def Let_def)
qed

text \<open>
  A payload of 126 bytes is refused and the length of an earlier \<open>prepare\<close> is forgotten;
  a payload of three bytes is stored.
\<close>

theorem rf2xx_wr_prepare_spec_witness:
  "RF2XX_MAX_PAYLOAD < unat (126 :: ushort) \<and>
   rf2xx_wr_prepare (replicate 126 1) 126 (booted\<lparr>tx_len := 4\<rparr>) = (1, booted\<lparr>tx_len := 0\<rparr>) \<and>
   unat (3 :: ushort) \<le> RF2XX_MAX_PAYLOAD \<and> unat (3 :: ushort) \<le> length [0x61, 0x62, 0x63 :: uint8_t] \<and>
   length (tx_buf booted) = RF2XX_MAX_PAYLOAD \<and>
   (\<exists>s'. rf2xx_wr_prepare [0x61, 0x62, 0x63] 3 booted = (0, s') \<and> unat (tx_len s') = 3 \<and>
         take 3 (tx_buf s') = [0x61, 0x62, 0x63] \<and> length (tx_buf s') = 125 \<and>
         rf2xx_state s' = RF_IDLE)"
  using rf2xx_wr_prepare_spec
          [where payload_len = 126 and payload = "replicate 126 1" and s = "booted\<lparr>tx_len := 4\<rparr>"]
        rf2xx_wr_prepare_spec
          [where payload_len = 3 and payload = "[0x61, 0x62, 0x63]" and s = booted]
  by (auto simp: booted_def RF2XX_MAX_PAYLOAD_def)

section \<open>Transmit path: the two early exits of transmit\<close>

text \<open>
  Claim C10. The comparison of \<open>transmit_len\<close> with the prepared length comes before the
  arbitration on the state. Whenever the two lengths differ, \<open>transmit\<close> returns
  \<open>RADIO_TX_ERR\<close> at once, never \<open>RADIO_TX_COLLISION\<close>, and the driver (the state
  included) is exactly as before, whatever the state is and whatever events arrive.
\<close>

theorem rf2xx_wr_transmit_length_mismatch:
  "unat (tx_len s) \<noteq> unat transmit_len \<Longrightarrow>
     rf2xx_wr_transmit p evs transmit_len s = Some (RADIO_TX_ERR, s)"
  by (simp add: rf2xx_wr_transmit_def)

text \<open>Nothing is prepared and the chip is receiving: a transmit of three bytes.\<close>

theorem rf2xx_wr_transmit_length_mismatch_witness:
  "unat (tx_len (listening\<lparr>rf2xx_state := RF_RX\<rparr>)) \<noteq> unat (3 :: ushort) \<and>
   rf2xx_wr_transmit board [IRQ] 3 (listening\<lparr>rf2xx_state := RF_RX\<rparr>) =
     Some (RADIO_TX_ERR, listening\<lparr>rf2xx_state := RF_RX\<rparr>)"
  using rf2xx_wr_transmit_length_mismatch
          [where s = "listening\<lparr>rf2xx_state := RF_RX\<rparr>" and transmit_len = 3
             and p = board and evs = "[IRQ]"]
  by (simp add: listening_def booted_def)

text \<open>
  Claim C5. When \<open>transmit_len\<close> equals the prepared length and the state is neither
  \<open>RF_IDLE\<close> nor \<open>RF_LISTEN\<close> (so in particular in \<open>RF_TX\<close> and in \<open>RF_RX\<close>), \<open>transmit\<close>
  returns \<open>RADIO_TX_COLLISION\<close> and the driver is exactly as before: state, on/off flag,
  transmit buffer and its length are untouched and no call reaches the chip.
\<close>

theorem rf2xx_wr_transmit_collision:
  assumes "unat (tx_len s) = unat transmit_len"
      and "rf2xx_state s \<noteq> RF_IDLE" and "rf2xx_state s \<noteq> RF_LISTEN"
  shows "rf2xx_wr_transmit p evs transmit_len s = Some (RADIO_TX_COLLISION, s)"
  using assms
  by (cases "rf2xx_state s") (simp_all add: rf2xx_wr_transmit_def transmit_check_state_def)

text \<open>A second transmit while the first one is in flight.\<close>

theorem rf2xx_wr_transmit_collision_witness:
  "unat (tx_len (listening\<lparr>rf2xx_state := RF_TX\<rparr>)) = unat (0 :: ushort) \<and>
   rf2xx_state (listening\<lparr>rf2xx_state := RF_TX\<rparr>) \<noteq> RF_IDLE \<and>
   rf2xx_state (listening\<lparr>rf2xx_state := RF_TX\<rparr>) \<noteq> RF_LISTEN \<and>
   rf2xx_wr_transmit board [IRQ] 0 (listening\<lparr>rf2xx_state := RF_TX\<rparr>) =
     Some (RADIO_TX_COLLISION, listening\<lparr>rf2xx_state := RF_TX\<rparr>)"
  using rf2xx_wr_transmit_collision
          [where s = "listening\<lparr>rf2xx_state := RF_TX\<rparr>" and transmit_len = 0
             and p = board and evs = "[IRQ]"]
  by (simp add: listening_def booted_def)

section \<open>Turning the radio on\<close>

lemma rf2xx_wr_on_sets_flag: "rf2xx_on (snd (rf2xx_wr_on p s)) \<noteq> 0"
  by (simp add: rf2xx_wr_on_def rf2xx_wr_on_critical_def Let_def)

lemma rf2xx_wr_on_noop: "rf2xx_on s \<noteq> 0 \<Longrightarrow> rf2xx_wr_on p s = (1, s)"
  by (simp add: rf2xx_wr_on_def rf2xx_wr_on_critical_def)

text \<open>
  Claim C8. When the on/off flag is already set, \<open>on()\<close> returns 1 and the driver is
  exactly as before: flag and state are unchanged and the log of calls to the chip gets
  no entry. The flag is set after every \<open>on()\<close>, so a second \<open>on()\<close> in a row changes
  nothing: two calls leave the driver that one call leaves.
\<close>

theorem rf2xx_wr_on_idempotent:
  "(rf2xx_on s \<noteq> 0 \<longrightarrow> rf2xx_wr_on p s = (1, s)) \<and>
   rf2xx_wr_on p (snd (rf2xx_wr_on p s)) = (1, snd (rf2xx_wr_on p s))"
  using rf2xx_wr_on_noop rf2xx_wr_on_sets_flag by blast

theorem rf2xx_wr_on_idempotent_witness:
  "rf2xx_on listening \<noteq> 0 \<and> rf2xx_wr_on board listening = (1, listening) \<and>
   rf2xx_wr_on board (snd (rf2xx_wr_on board booted)) = (1, snd (rf2xx_wr_on board booted))"
  using rf2xx_wr_on_idempotent [where s = listening and p = board]
        rf2xx_wr_on_idempotent [where s = booted and p = board]
  by (simp add: listening_def booted_def)

text \<open>
  Claim C1. The claim is that the critical section of \<open>on()\<close>, entered with the flag off
  and the state \<open>RF_IDLE\<close>, leaves the state at the marker \<open>RF_BUSY\<close> until \<open>listen()\<close> has
  run. The source writes \<open>rf2xx_state == RF_BUSY;\<close> there, a comparison, so after the
  critical section the flag is on and the state is still \<open>RF_IDLE\<close>: a \<open>transmit\<close> that
  preempts \<open>on()\<close> before \<open>listen()\<close> passes the state check instead of seeing a
  transition in progress. The critical section of \<open>off()\<close>, which assigns \<open>RF_BUSY\<close>,
  does block it.
\<close>

theorem rf2xx_wr_on_critical_leaves_idle:
  "rf2xx_wr_on_critical booted = (True, booted\<lparr>rf2xx_on := 1\<rparr>) \<and>
   rf2xx_state (snd (rf2xx_wr_on_critical booted)) = RF_IDLE \<and>
   rf2xx_state (snd (rf2xx_wr_on_critical booted)) \<noteq> RF_BUSY \<and>
   transmit_check_state (snd (rf2xx_wr_on_critical booted)) =
     Some (False, booted\<lparr>rf2xx_on := 1, rf2xx_state := RF_TX\<rparr>) \<and>
   rf2xx_state (snd (rf2xx_wr_off_critical listening)) = RF_BUSY \<and>
   transmit_check_state (snd (rf2xx_wr_off_critical listening)) = None"
  by (simp add: rf2xx_wr_on_critical_def rf2xx_wr_off_critical_def transmit_check_state_def
      listening_def booted_def)

section \<open>The interrupt handler\<close>

text \<open>
  Claim C2. Write \<open>reg\<close> for the interrupt status that the chip reports to the handler.
  \<^item> In a state other than \<open>RF_TX\<close>, \<open>RF_LISTEN\<close>, \<open>RF_RX\<close> the handler returns at once: the
    driver is unchanged and the status is not even read.
  \<^item> In those three states it reads the status once and runs its two tests in order.
    The first, on receive-start, takes \<open>RF_LISTEN\<close> to \<open>RF_RX\<close>; when the status shows
    nothing else, that is the state the handler leaves.
  \<^item> The second, on transfer-end, takes \<open>RF_TX\<close> to \<open>RF_TX_DONE\<close>, and takes \<open>RF_RX\<close> and
    \<open>RF_LISTEN\<close> to \<open>RF_RX_DONE\<close>, then commands the chip to PLL_ON (out of receive mode)
    and polls the worker process; no other call is made.
  A status with both bits set in state \<open>RF_LISTEN\<close> passes through \<open>RF_RX\<close> and ends in
  \<open>RF_RX_DONE\<close>.
\<close>

theorem irq_handler_spec:
  fixes p s
  defines "reg \<equiv> reg_value p (calls s) RF2XX_REG_IRQ_STATUS"
  defines "s1 \<equiv> call (REG_READ RF2XX_REG_IRQ_STATUS) s"
  defines "rx_start \<equiv> reg AND IRQ_STATUS_MASK_RX_START p \<noteq> 0"
  defines "trx_end \<equiv> reg AND IRQ_STATUS_MASK_TRX_END p \<noteq> 0"
  shows "(rf2xx_state s \<notin> {RF_TX, RF_LISTEN, RF_RX} \<longrightarrow> irq_handler p s = s) \<and>
         (rf2xx_state s \<in> {RF_TX, RF_LISTEN, RF_RX} \<longrightarrow>
            irq_handler p s = snd (irq_trx_end p reg (irq_rx_start p reg (rf2xx_state s, s1)))) \<and>
         (rx_start \<longrightarrow> irq_rx_start p reg (RF_LISTEN, s1) = (RF_RX, s1\<lparr>rf2xx_state := RF_RX\<rparr>)) \<and>
         (rx_start \<and> \<not> trx_end \<and> rf2xx_state s = RF_LISTEN \<longrightarrow>
            irq_handler p s = s1\<lparr>rf2xx_state := RF_RX\<rparr>) \<and>
         (trx_end \<and> rf2xx_state s = RF_TX \<longrightarrow>
            irq_handler p s = s1\<lparr>rf2xx_state := RF_TX_DONE\<rparr>) \<and>
         (trx_end \<and> (rf2xx_state s = RF_RX \<or> rf2xx_state s = RF_LISTEN) \<longrightarrow>
            irq_handler p s =
              s\<lparr>rf2xx_state := RF_RX_DONE,
                calls := calls s @ [REG_READ RF2XX_REG_IRQ_STATUS,
                                    SET_STATE RF2XX_TRX_STATE_PLL_ON, PROCESS_POLL]\<rparr>)"
proof (intro conjI impI)
  assume "rf2xx_state s \<notin> {RF_TX, RF_LISTEN, RF_RX}"
  then show "irq_handler p s = s"
    by (simp add: irq_handler_def)
next
  assume "rf2xx_state s \<in> {RF_TX, RF_LISTEN, RF_RX}"
  then show "irq_handler p s = snd (irq_trx_end p reg (irq_rx_start p reg (rf2xx_state s, s1)))"
    by (auto simp: irq_handler_def rf2xx_reg_read_def reg_def s1_def)
next
  assume rx_start
  then show "irq_rx_start p reg (RF_LISTEN, s1) = (RF_RX, s1\<lparr>rf2xx_state := RF_RX\<rparr>)"
    by (simp add: irq_rx_start_def rx_start_def)
next
  assume "rx_start \<and> \<not> trx_end \<and> rf2xx_state s = RF_LISTEN"
  then show "irq_handler p s = s1\<lparr>rf2xx_state := RF_RX\<rparr>"
    by (simp add: irq_handler_def rf2xx_reg_read_def irq_rx_start_def irq_trx_end_def
        reg_def s1_def rx_start_def trx_end_def)
next
  assume "trx_end \<and> rf2xx_state s = RF_TX"
  then show "irq_handler p s = s1\<lparr>rf2xx_state := RF_TX_DONE\<rparr>"
    by (simp add: irq_handler_def rf2xx_reg_read_def irq_rx_start_def irq_trx_end_def
        reg_def s1_def rx_start_def trx_end_def)
next
  assume "trx_end \<and> (rf2xx_state s = RF_RX \<or> rf2xx_state s = RF_LISTEN)"
  then show "irq_handler p s =
              s\<lparr>rf2xx_state := RF_RX_DONE,
                calls := calls s @ [REG_READ RF2XX_REG_IRQ_STATUS,
                                    SET_STATE RF2XX_TRX_STATE_PLL_ON, PROCESS_POLL]\<rparr>"
    by (auto simp: irq_handler_def rf2xx_reg_read_def irq_rx_start_def irq_trx_end_def
        reg_def s1_def rx_start_def trx_end_def call_def)
qed

text \<open>
  A stale interrupt in \<open>RF_IDLE\<close>; receive-start while listening; transfer-end while
  transmitting; transfer-end while listening.
\<close>

theorem irq_handler_spec_witness:
  "rf2xx_state booted \<notin> {RF_TX, RF_LISTEN, RF_RX} \<and>
   irq_handler board booted = booted \<and>
   rf2xx_state listening \<in> {RF_TX, RF_LISTEN, RF_RX} \<and>
   reg_value board_rx_start (calls listening) RF2XX_REG_IRQ_STATUS AND
     IRQ_STATUS_MASK_RX_START board_rx_start \<noteq> 0 \<and>
   irq_handler board_rx_start listening =
     listening\<lparr>rf2xx_state := RF_RX, calls := [REG_READ RF2XX_REG_IRQ_STATUS]\<rparr> \<and>
   reg_value board (calls listening) RF2XX_REG_IRQ_STATUS AND IRQ_STATUS_MASK_TRX_END board \<noteq> 0 \<and>
   irq_handler board (listening\<lparr>rf2xx_state := RF_TX\<rparr>) =
     listening\<lparr>rf2xx_state := RF_TX_DONE, calls := [REG_READ RF2XX_REG_IRQ_STATUS]\<rparr> \<and>
   irq_handler board listening =
     listening\<lparr>rf2xx_state := RF_RX_DONE,
               calls := [REG_READ RF2XX_REG_IRQ_STATUS, SET_STATE RF2XX_TRX_STATE_PLL_ON,
                         PROCESS_POLL]\<rparr>"
  using irq_handler_spec [where p = board and s = booted]
        irq_handler_spec [where p = board_rx_start and s = listening]
        irq_handler_spec [where p = board and s = "listening\<lparr>rf2xx_state := RF_TX\<rparr>"]
        irq_handler_spec [where p = board and s = listening]
  by (simp add: board_def board_rx_start_def listening_def booted_def call_def
      irq_rx_start_def irq_trx_end_def)

section \<open>Receive path\<close>

text \<open>
  Claim C6. For a frame whose CRC the chip reports as valid, the frame drain reads the
  length byte and takes \<open>len\<close>, the length byte minus the two trailer bytes (as a
  \<open>uint8_t\<close>, so a length byte below 2 wraps around to 254 or 255). When \<open>len\<close> exceeds
  \<open>buf_len\<close> it ends the FIFO access with a read of zero bytes, returns 0 and leaves
  the buffer as it was. Otherwise it reads exactly \<open>len\<close> bytes from the FIFO into the
  start of the buffer, leaves the rest of the buffer alone and returns \<open>len\<close>. The
  globals of the driver are not touched; the calls made are exactly the three listed.
\<close>

theorem read_spec:
  fixes p buf buf_len s
  defines "h1 \<equiv> calls s @ [REG_READ RF2XX_REG_PHY_RSSI]"
  defines "h2 \<equiv> h1 @ [FIFO_READ_FIRST]"
  defines "len \<equiv> fifo_first_value p h1 - 2"
  assumes crc: "reg_value p (calls s) RF2XX_REG_PHY_RSSI AND PHY_RSSI_MASK_RX_CRC_VALID p \<noteq> 0"
  shows "read p buf buf_len s =
           (if buf_len < len
            then (0, buf, s\<lparr>calls := h2 @ [FIFO_READ_REMAINING 0]\<rparr>)
            else (int (unat len),
                  map (fifo_byte p h2) [0..<unat len] @ drop (unat len) buf,
                  s\<lparr>calls := h2 @ [FIFO_READ_REMAINING len]\<rparr>))"
  using crc
  by (simp add: read_def rf2xx_reg_read_def rf2xx_fifo_read_first_def
      rf2xx_fifo_read_remaining_def call_def Let_def h1_def h2_def len_def)

text \<open>
  The frame of the board has three payload bytes: a buffer of four bytes receives them
  and keeps its last byte, a buffer of two bytes receives nothing.
\<close>

theorem read_spec_witness:
  "reg_value board (calls (listening\<lparr>rf2xx_state := RF_RX_READ\<rparr>)) RF2XX_REG_PHY_RSSI AND
     PHY_RSSI_MASK_RX_CRC_VALID board \<noteq> 0 \<and>
   read board [1, 2, 3, 4] 4 (listening\<lparr>rf2xx_state := RF_RX_READ\<rparr>) =
     (3, [0x61, 0x62, 0x63, 4],
      listening\<lparr>rf2xx_state := RF_RX_READ,
                calls := [REG_READ RF2XX_REG_PHY_RSSI, FIFO_READ_FIRST, FIFO_READ_REMAINING 3]\<rparr>) \<and>
   read board [1, 2, 3, 4] 2 (listening\<lparr>rf2xx_state := RF_RX_READ\<rparr>) =
     (0, [1, 2, 3, 4],
      listening\<lparr>rf2xx_state := RF_RX_READ,
                calls := [REG_READ RF2XX_REG_PHY_RSSI, FIFO_READ_FIRST, FIFO_READ_REMAINING 0]\<rparr>)"
  using read_spec [where p = board and s = "listening\<lparr>rf2xx_state := RF_RX_READ\<rparr>"
                     and buf = "[1, 2, 3, 4]" and buf_len = 4]
        read_spec [where p = board and s = "listening\<lparr>rf2xx_state := RF_RX_READ\<rparr>"
                     and buf = "[1, 2, 3, 4]" and buf_len = 2]
  by (simp add: board_def listening_def booted_def upt_rec)

lemma rf2xx_wr_read_low_byte:
  assumes "unat b1 mod 256 = unat b2 mod 256"
  shows "rf2xx_wr_read p buf b1 s = rf2xx_wr_read p buf b2 s"
proof -
  from assms have "(ucast b1 :: uint8_t) = ucast b2"
    by (metis unat_ucast_ushort word_unat_eq_iff)
  then show ?thesis
    by (simp add: rf2xx_wr_read_def)
qed

lemma read_result:
  assumes "reg_value p (calls s) RF2XX_REG_PHY_RSSI AND PHY_RSSI_MASK_RX_CRC_VALID p \<noteq> 0"
  shows "fst (read p buf buf_len s) =
           (if buf_len < fifo_first_value p (calls s @ [REG_READ RF2XX_REG_PHY_RSSI]) - 2 then 0
            else int (unat (fifo_first_value p (calls s @ [REG_READ RF2XX_REG_PHY_RSSI]) - 2)))"
    and "buf_len < fifo_first_value p (calls s @ [REG_READ RF2XX_REG_PHY_RSSI]) - 2 \<Longrightarrow>
           fst (snd (read p buf buf_len s)) = buf"
  using assms
  by (simp_all add: read_def rf2xx_reg_read_def rf2xx_fifo_read_first_def
      rf2xx_fifo_read_remaining_def call_def Let_def)

text \<open>
  Claim C9. The public \<open>read\<close> takes its buffer length as an \<open>unsigned short\<close> and passes
  it to the frame drain as a \<open>uint8_t\<close>, so only the length modulo 256 takes part in the
  comparison: two buffer lengths that agree modulo 256 give the same result in every
  respect; a pending frame with a valid CRC is dropped exactly when its payload length
  exceeds the buffer length modulo 256; and with a buffer length of 256 every such frame
  with a payload length other than 0 is dropped, the call returning 0 with the buffer
  unchanged.
\<close>

theorem rf2xx_wr_read_truncates_buf_len:
  fixes p buf s
  defines "len \<equiv> fifo_first_value p (calls s @ [REG_READ RF2XX_REG_PHY_RSSI]) - 2"
  shows "(unat b1 mod 256 = unat b2 mod 256 \<longrightarrow>
            rf2xx_wr_read p buf b1 s = rf2xx_wr_read p buf b2 s) \<and>
         (rf2xx_state s = RF_RX_DONE \<and>
          reg_value p (calls s) RF2XX_REG_PHY_RSSI AND PHY_RSSI_MASK_RX_CRC_VALID p \<noteq> 0 \<longrightarrow>
            fst (rf2xx_wr_read p buf buf_len s) =
              (if unat buf_len mod 256 < unat len then 0 else int (unat len)) \<and>
            (len \<noteq> 0 \<longrightarrow> fst (rf2xx_wr_read p buf 256 s) = 0 \<and>
                              fst (snd (rf2xx_wr_read p buf 256 s)) = buf))"
proof (intro conjI impI)
  assume "unat b1 mod 256 = unat b2 mod 256"
  then show "rf2xx_wr_read p buf b1 s = rf2xx_wr_read p buf b2 s"
    by (rule rf2xx_wr_read_low_byte)
next
  assume h: "rf2xx_state s = RF_RX_DONE \<and>
          reg_value p (calls s) RF2XX_REG_PHY_RSSI AND PHY_RSSI_MASK_RX_CRC_VALID p \<noteq> 0"
  let ?s = "s\<lparr>rf2xx_state := RF_RX_READ\<rparr>"
  have crc: "reg_value p (calls ?s) RF2XX_REG_PHY_RSSI AND PHY_RSSI_MASK_RX_CRC_VALID p \<noteq> 0"
    using h by simp
  have w: "fst (rf2xx_wr_read p buf b s) = fst (read p buf (ucast b) ?s)"
          "fst (snd (rf2xx_wr_read p buf b s)) = fst (snd (read p buf (ucast b) ?s))" for b
    using h by (simp_all add: rf2xx_wr_read_def Let_def split_beta)
  show "fst (rf2xx_wr_read p buf buf_len s) =
              (if unat buf_len mod 256 < unat len then 0 else int (unat len))"
    using read_result(1) [OF crc, of buf "ucast buf_len"]
    by (simp add: w len_def word_less_nat_alt unat_ucast_ushort)
  assume nz: "len \<noteq> 0"
  have "(ucast (256 :: ushort) :: uint8_t) = 0"
    by simp
  with nz have lt: "(ucast (256 :: ushort) :: uint8_t) < len"
    by (simp only: word_neq_0_conv)
  show "fst (rf2xx_wr_read p buf 256 s) = 0"
    using read_result(1) [OF crc, of buf "ucast (256 :: ushort)"] lt
    by (simp add: w len_def)
  show "fst (snd (rf2xx_wr_read p buf 256 s)) = buf"
    using read_result(2) [OF crc, of "ucast (256 :: ushort)" buf] lt
    by (simp add: w len_def)
qed

text \<open>
  A caller with a buffer of 256 bytes loses the three-byte frame; a buffer length of 260
  behaves as one of 4 and receives it.
\<close>

theorem rf2xx_wr_read_truncates_buf_len_witness:
  "rf2xx_state (listening\<lparr>rf2xx_state := RF_RX_DONE\<rparr>) = RF_RX_DONE \<and>
   reg_value board (calls (listening\<lparr>rf2xx_state := RF_RX_DONE\<rparr>)) RF2XX_REG_PHY_RSSI AND
     PHY_RSSI_MASK_RX_CRC_VALID board \<noteq> 0 \<and>
   fifo_first_value board
     (calls (listening\<lparr>rf2xx_state := RF_RX_DONE\<rparr>) @ [REG_READ RF2XX_REG_PHY_RSSI]) - 2 \<noteq> 0 \<and>
   fst (rf2xx_wr_read board [1, 2, 3, 4] 256 (listening\<lparr>rf2xx_state := RF_RX_DONE\<rparr>)) = 0 \<and>
   fst (snd (rf2xx_wr_read board [1, 2, 3, 4] 256 (listening\<lparr>rf2xx_state := RF_RX_DONE\<rparr>))) =
     [1, 2, 3, 4] \<and>
   unat (260 :: ushort) mod 256 = unat (4 :: ushort) mod 256 \<and>
   rf2xx_wr_read board [1, 2, 3, 4] 260 (listening\<lparr>rf2xx_state := RF_RX_DONE\<rparr>) =
     rf2xx_wr_read board [1, 2, 3, 4] 4 (listening\<lparr>rf2xx_state := RF_RX_DONE\<rparr>) \<and>
   fst (rf2xx_wr_read board [1, 2, 3, 4] 260 (listening\<lparr>rf2xx_state := RF_RX_DONE\<rparr>)) = 3"
  using rf2xx_wr_read_truncates_buf_len
          [where p = board and s = "listening\<lparr>rf2xx_state := RF_RX_DONE\<rparr>"
             and buf = "[1, 2, 3, 4]" and ?b1.0 = 260 and ?b2.0 = 4 and buf_len = 4]
  by (simp add: board_def listening_def booted_def)

section \<open>Transmit path: the two waits\<close>

text \<open>While the state is \<open>RF_TX\<close>, the handler and the two switches act as follows.\<close>

lemma irq_handler_tx:
  "rf2xx_state s = RF_TX \<Longrightarrow>
     irq_handler p s =
       (if reg_value p (calls s) RF2XX_REG_IRQ_STATUS AND IRQ_STATUS_MASK_TRX_END p \<noteq> 0
        then (call (REG_READ RF2XX_REG_IRQ_STATUS) s)\<lparr>rf2xx_state := RF_TX_DONE\<rparr>
        else call (REG_READ RF2XX_REG_IRQ_STATUS) s)"
  by (simp add: irq_handler_def irq_rx_start_def irq_trx_end_def rf2xx_reg_read_def)

lemma rf2xx_wr_on_tx:
  "rf2xx_state s = RF_TX \<Longrightarrow>
     rf2xx_wr_on p s = (1, if rf2xx_on s = 0 then s\<lparr>rf2xx_on := 1\<rparr> else s)"
  by (simp add: rf2xx_wr_on_def rf2xx_wr_on_critical_def)

lemma rf2xx_wr_off_tx:
  "rf2xx_state s = RF_TX \<Longrightarrow> rf2xx_wr_off p s = (1, s\<lparr>rf2xx_on := 0\<rparr>)"
  by (simp add: rf2xx_wr_off_def rf2xx_wr_off_critical_def)

lemma deliver_tx_state:
  "rf2xx_state s = RF_TX \<Longrightarrow>
     rf2xx_state (deliver p e s) = RF_TX \<or> rf2xx_state (deliver p e s) = RF_TX_DONE"
  by (cases e) (simp_all add: irq_handler_tx rf2xx_wr_on_tx rf2xx_wr_off_tx)

lemma deliver_tx_flag_off:
  "rf2xx_state s = RF_TX \<Longrightarrow> rf2xx_on s = 0 \<Longrightarrow> e \<noteq> CALL_ON \<Longrightarrow>
     rf2xx_on (deliver p e s) = 0"
  by (cases e) (simp_all add: rf2xx_wr_off_tx)

lemma wait_tx_end_not_tx [simp]:
  "rf2xx_state s \<noteq> RF_TX \<Longrightarrow> wait_tx_end p evs s = Some s"
  by (cases evs) simp_all


lemma wait_tx_end_flag_off:
  "wait_tx_end p evs s = Some s' \<Longrightarrow> rf2xx_state s = RF_TX \<Longrightarrow> rf2xx_on s = 0 \<Longrightarrow>
     CALL_ON \<notin> set evs \<Longrightarrow> rf2xx_on s' = 0"
proof (induction evs arbitrary: s)
  case Nil
  then show ?case by simp
next
  case (Cons e evs)
  have w: "wait_tx_end p evs (deliver p e s) = Some s'"
    using Cons.prems(1,2) by simp
  have f: "rf2xx_on (deliver p e s) = 0"
    using Cons.prems by (intro deliver_tx_flag_off) auto
  from deliver_tx_state [OF Cons.prems(2), of p e] show ?case
  proof
    assume "rf2xx_state (deliver p e s) = RF_TX"
    then show ?thesis using w f Cons.prems(4) by (intro Cons.IH [of "deliver p e s"]) auto
  next
    assume "rf2xx_state (deliver p e s) = RF_TX_DONE"
    then have "wait_tx_end p evs (deliver p e s) = Some (deliver p e s)"
      by simp
    with w f show ?thesis by simp
  qed
qed




lemma wait_pll_on_keeps:
  assumes r: "wait_pll_on p s = Some r"
  shows "rf2xx_state (snd r) = rf2xx_state s \<and> rf2xx_on (snd r) = rf2xx_on s \<and>
         tx_len (snd r) = tx_len s \<and> tx_buf (snd r) = tx_buf s"
proof (rule wait_pll_on.raw_induct
    [where P = "\<lambda>p s r. rf2xx_state (snd r) = rf2xx_state s \<and> rf2xx_on (snd r) = rf2xx_on s \<and>
                        tx_len (snd r) = tx_len s \<and> tx_buf (snd r) = tx_buf s", OF _ r])
  fix wait :: "periph \<Rightarrow> driver \<Rightarrow> (bool \<times> driver) option" and p s r
  assume IH: "\<And>p s r. wait p s = Some r \<Longrightarrow>
                rf2xx_state (snd r) = rf2xx_state s \<and> rf2xx_on (snd r) = rf2xx_on s \<and>
                tx_len (snd r) = tx_len s \<and> tx_buf (snd r) = tx_buf s"
    and step: "(case rf2xx_get_status p s of
                 (reg, s) \<Rightarrow>
                   if deadline_passed p (calls s) then Some (False, s)
                   else if reg \<noteq> TRX_STATUS_PLL_ON p then wait p s
                   else Some (True, s)) = Some r"
  show "rf2xx_state (snd r) = rf2xx_state s \<and> rf2xx_on (snd r) = rf2xx_on s \<and>
        tx_len (snd r) = tx_len s \<and> tx_buf (snd r) = tx_buf s"
  proof (cases "deadline_passed p (calls s @ [GET_STATUS]) \<or>
                status_value p (calls s) = TRX_STATUS_PLL_ON p")
    case True
    with step show ?thesis
      by (auto simp: rf2xx_get_status_def split: if_splits)
  next
    case False
    with step have "wait p (call GET_STATUS s) = Some r"
      by (simp add: rf2xx_get_status_def)
    from IH [OF this] show ?thesis by simp
  qed
qed

text \<open>\<open>rf2xx_wr_transmit\<close> past its two early exits.\<close>

lemma rf2xx_wr_transmit_unfold:
  assumes "rf2xx_state s = RF_IDLE \<or> rf2xx_state s = RF_LISTEN"
      and "unat (tx_len s) = unat transmit_len"
  shows "rf2xx_wr_transmit p evs transmit_len s =
           (case wait_pll_on p (transmit_setup p (rf2xx_state s = RF_LISTEN)
                                  (s\<lparr>rf2xx_state := RF_TX\<rparr>)) of
              None \<Rightarrow> None
            | Some (b, s1) \<Rightarrow>
                if b then
                  (case wait_tx_end p evs (transmit_start s1) of
                     None \<Rightarrow> None
                   | Some s2 \<Rightarrow>
                       Some (if rf2xx_state s2 = RF_TX_DONE then RADIO_TX_OK else RADIO_TX_ERR,
                             restart p s2))
                else Some (RADIO_TX_ERR, restart p s1))"
  using assms
  by (auto simp: rf2xx_wr_transmit_def transmit_check_state_def Let_def
      split: option.split bool.split)

text \<open>
  Without its interrupt the wait for the end of the packet never ends; while the state
  is \<open>RF_TX\<close>, only a transfer-end interrupt changes it.
\<close>

lemma wait_tx_end_no_irq:
  "rf2xx_state s = RF_TX \<Longrightarrow> IRQ \<notin> set evs \<Longrightarrow> wait_tx_end p evs s = None"
proof (induction evs arbitrary: s)
  case Nil
  then show ?case by simp
next
  case (Cons e evs)
  from Cons.prems have "rf2xx_state (deliver p e s) = RF_TX"
    by (cases e) (simp_all add: rf2xx_wr_on_tx rf2xx_wr_off_tx)
  with Cons show ?case by simp
qed

lemma prepare_gives_prepared: "rf2xx_wr_prepare [0x61, 0x62, 0x63] 3 booted = (0, prepared)"
  by (simp add: rf2xx_wr_prepare_def RF2XX_MAX_PAYLOAD_def memcpy_def Let_def
      prepared_def booted_def)




section \<open>Turning the radio off\<close>

lemma rf2xx_wr_off_listen:
  assumes "rf2xx_on s \<noteq> 0" "rf2xx_state s = RF_LISTEN"
  shows "rf2xx_wr_off_critical s = (True, s\<lparr>rf2xx_on := 0, rf2xx_state := RF_BUSY\<rparr>)"
    and "rf2xx_wr_off p s =
        (1, (idle p (s\<lparr>rf2xx_on := 0, rf2xx_state := RF_BUSY\<rparr>))\<lparr>rf2xx_state := RF_IDLE\<rparr>)"
  using assms by (simp_all add: rf2xx_wr_off_def rf2xx_wr_off_critical_def)

lemma transmit_ok_after_off:
  assumes st: "rf2xx_state s = RF_IDLE \<or> rf2xx_state s = RF_LISTEN"
    and len: "unat (tx_len s) = unat transmit_len"
    and no_on: "CALL_ON \<notin> set evs"
    and r: "rf2xx_wr_transmit p (CALL_OFF # evs) transmit_len s = Some (RADIO_TX_OK, s')"
  shows "rf2xx_state s' = RF_IDLE \<and> rf2xx_on s' = 0"
proof -
  let ?s1 = "transmit_setup p (rf2xx_state s = RF_LISTEN) (s\<lparr>rf2xx_state := RF_TX\<rparr>)"
  from r obtain b s2 where w: "wait_pll_on p ?s1 = Some (b, s2)"
    by (auto simp: rf2xx_wr_transmit_unfold [OF st len] split: option.splits)
  from wait_pll_on_keeps [OF w] have tx: "rf2xx_state (transmit_start s2) = RF_TX"
    by simp
  from r w have b by (cases b) (simp_all add: rf2xx_wr_transmit_unfold [OF st len])
  with r w obtain s3 where w3: "wait_tx_end p (CALL_OFF # evs) (transmit_start s2) = Some s3"
    and s': "s' = restart p s3"
    by (auto simp: rf2xx_wr_transmit_unfold [OF st len]
        split: option.splits)
  define s4 where "s4 = (transmit_start s2)\<lparr>rf2xx_on := 0\<rparr>"
  have s4: "rf2xx_state s4 = RF_TX" "rf2xx_on s4 = 0"
    using tx by (simp_all add: s4_def)
  from w3 tx have "wait_tx_end p evs s4 = Some s3"
    by (simp add: rf2xx_wr_off_tx s4_def)
  then have "rf2xx_on s3 = 0"
    using s4 no_on by (rule wait_tx_end_flag_off)
  with s' show ?thesis
    by simp
qed

text \<open>
  Claim C7.
  \<^item> \<open>off()\<close> with the flag set and the state \<open>RF_LISTEN\<close> clears the flag and puts the
    marker \<open>RF_BUSY\<close> in its critical section, then runs \<open>idle()\<close> and sets \<open>RF_IDLE\<close>:
    the call ends in \<open>RF_IDLE\<close> with the flag clear.
  \<^item> \<open>off()\<close> in state \<open>RF_TX\<close> changes the flag only: state, buffer and log of calls
    are as before, so the transmit in flight goes on waiting with the flag clear, and a
    \<open>restart()\<close> after it ends in \<open>RF_IDLE\<close>.
  \<^item> For the whole transmit: when \<open>off()\<close> is the first event of its wait, no \<open>on()\<close>
    follows and the transmit returns \<open>RADIO_TX_OK\<close>, the driver ends in \<open>RF_IDLE\<close> with
    the flag clear, also when the transmit started from \<open>RF_LISTEN\<close>.
\<close>

theorem rf2xx_wr_off_spec:
  "(rf2xx_on s \<noteq> 0 \<and> rf2xx_state s = RF_LISTEN \<longrightarrow>
      rf2xx_wr_off_critical s = (True, s\<lparr>rf2xx_on := 0, rf2xx_state := RF_BUSY\<rparr>) \<and>
      rf2xx_wr_off p s =
        (1, (idle p (s\<lparr>rf2xx_on := 0, rf2xx_state := RF_BUSY\<rparr>))\<lparr>rf2xx_state := RF_IDLE\<rparr>) \<and>
      rf2xx_state (snd (rf2xx_wr_off p s)) = RF_IDLE \<and>
      rf2xx_on (snd (rf2xx_wr_off p s)) = 0) \<and>
   (rf2xx_state s = RF_TX \<longrightarrow>
      rf2xx_wr_off p s = (1, s\<lparr>rf2xx_on := 0\<rparr>) \<and>
      rf2xx_state (restart p (snd (rf2xx_wr_off p s))) = RF_IDLE \<and>
      wait_tx_end p (CALL_OFF # evs) s = wait_tx_end p evs (s\<lparr>rf2xx_on := 0\<rparr>)) \<and>
   ((rf2xx_state s = RF_IDLE \<or> rf2xx_state s = RF_LISTEN) \<and>
    unat (tx_len s) = unat transmit_len \<and> CALL_ON \<notin> set evs \<and>
    rf2xx_wr_transmit p (CALL_OFF # evs) transmit_len s = Some (RADIO_TX_OK, s') \<longrightarrow>
      rf2xx_state s' = RF_IDLE \<and> rf2xx_on s' = 0)"
proof (intro conjI impI)
  assume h: "rf2xx_on s \<noteq> 0 \<and> rf2xx_state s = RF_LISTEN"
  then show "rf2xx_wr_off_critical s = (True, s\<lparr>rf2xx_on := 0, rf2xx_state := RF_BUSY\<rparr>)"
    by (simp add: rf2xx_wr_off_listen)
  from h show "rf2xx_wr_off p s =
        (1, (idle p (s\<lparr>rf2xx_on := 0, rf2xx_state := RF_BUSY\<rparr>))\<lparr>rf2xx_state := RF_IDLE\<rparr>)"
    by (simp add: rf2xx_wr_off_listen)
  from h show "rf2xx_state (snd (rf2xx_wr_off p s)) = RF_IDLE"
    by (simp add: rf2xx_wr_off_listen)
  from h show "rf2xx_on (snd (rf2xx_wr_off p s)) = 0"
    by (simp add: rf2xx_wr_off_listen)
next
  assume h: "rf2xx_state s = RF_TX"
  then show "rf2xx_wr_off p s = (1, s\<lparr>rf2xx_on := 0\<rparr>)"
    by (rule rf2xx_wr_off_tx)
  from h show "rf2xx_state (restart p (snd (rf2xx_wr_off p s))) = RF_IDLE"
    by (simp add: rf2xx_wr_off_tx)
  from h show "wait_tx_end p (CALL_OFF # evs) s = wait_tx_end p evs (s\<lparr>rf2xx_on := 0\<rparr>)"
    by (simp add: rf2xx_wr_off_tx)
next
  assume h: "(rf2xx_state s = RF_IDLE \<or> rf2xx_state s = RF_LISTEN) \<and>
    unat (tx_len s) = unat transmit_len \<and> CALL_ON \<notin> set evs \<and>
    rf2xx_wr_transmit p (CALL_OFF # evs) transmit_len s = Some (RADIO_TX_OK, s')"
  then have "rf2xx_state s' = RF_IDLE \<and> rf2xx_on s' = 0"
    by (intro transmit_ok_after_off [of s transmit_len evs p s']) simp_all
  then show "rf2xx_state s' = RF_IDLE" "rf2xx_on s' = 0"
    by simp_all
qed

theorem rf2xx_wr_off_spec_witness:
  "rf2xx_on listening \<noteq> 0 \<and> rf2xx_state listening = RF_LISTEN \<and>
   rf2xx_state (snd (rf2xx_wr_off_critical listening)) = RF_BUSY \<and>
   rf2xx_state (snd (rf2xx_wr_off board listening)) = RF_IDLE \<and>
   rf2xx_on (snd (rf2xx_wr_off board listening)) = 0 \<and>
   rf2xx_state (listening\<lparr>rf2xx_state := RF_TX\<rparr>) = RF_TX \<and>
   rf2xx_wr_off board (listening\<lparr>rf2xx_state := RF_TX\<rparr>) =
     (1, listening\<lparr>rf2xx_state := RF_TX, rf2xx_on := 0\<rparr>) \<and>
   rf2xx_state (restart board (snd (rf2xx_wr_off board (listening\<lparr>rf2xx_state := RF_TX\<rparr>)))) =
     RF_IDLE \<and>
   unat (tx_len listening) = unat (0 :: ushort) \<and> CALL_ON \<notin> set [IRQ] \<and>
   (\<exists>s'. rf2xx_wr_transmit board [CALL_OFF, IRQ] 0 listening = Some (RADIO_TX_OK, s') \<and>
         rf2xx_state s' = RF_IDLE \<and> rf2xx_on s' = 0)"
proof -
  define s' where "s' = snd (the (rf2xx_wr_transmit board [CALL_OFF, IRQ] 0 listening))"
  have "rf2xx_wr_transmit board [CALL_OFF, IRQ] 0 listening \<noteq> None"
    and "fst (the (rf2xx_wr_transmit board [CALL_OFF, IRQ] 0 listening)) = RADIO_TX_OK"
    by code_simp+
  then have r: "rf2xx_wr_transmit board [CALL_OFF, IRQ] 0 listening = Some (RADIO_TX_OK, s')"
    by (auto simp: s'_def)
  have l: "rf2xx_on listening \<noteq> 0" "rf2xx_state listening = RF_LISTEN"
    "unat (tx_len listening) = unat (0 :: ushort)"
    by (simp_all add: listening_def booted_def)
  from rf2xx_wr_off_spec
         [where s = listening and p = board and evs = "[IRQ]" and transmit_len = 0 and s' = s']
       rf2xx_wr_off_spec
         [where s = "listening\<lparr>rf2xx_state := RF_TX\<rparr>" and p = board and evs = "[IRQ]"
            and transmit_len = 0 and s' = s']
       r l
  show ?thesis
    by (simp add: listening_def booted_def)
qed

end
